theory Spec2Isabelle
  imports Complex_Main "HOL-Library.Char_ord" "HOL-Library.List_Lexorder"
begin

section \<open>The validation-service configuration (application.yml, key rapide)\<close>

text \<open>
  \<^verbatim>\<open>src/pacs008/src/main/resources/application.yml\<close>, lines 24 to 80. The file is
  declarative data; each YAML sequence is a list in the order of the file, each YAML
  mapping inside a sequence is a record with the keys of the file.
  Strings are compared bytewise and lists of bytes lexicographically
  (\<open>Char_ord\<close>, \<open>List_Lexorder\<close>), which on the ASCII codes of the file is the usual
  lexicographic order of strings.
\<close>

text \<open>\<^verbatim>\<open>rapide.PurposeCode\<close>, lines 25 to 59.\<close>

definition PurposeCode :: "string list" where
  "PurposeCode =
    [''BONU'', ''CASH'', ''CBLK'', ''CCRD'', ''CORT'', ''DCRD'', ''DIVI'', ''DVPM'',
     ''EPAY'', ''FCIN'', ''FCOL'', ''GOVT'', ''HEDG'', ''ICCP'', ''IDCP'', ''INTC'',
     ''INTE'', ''LOAN'', ''MP2B'', ''MP2P'', ''OTHR'', ''PENS'', ''RPRE'', ''RRCT'',
     ''RVPM'', ''SALA'', ''SECU'', ''SSBE'', ''SUPP'', ''TAXS'', ''TRAD'', ''TREA'',
     ''VATX'', ''WHLD'']"

text \<open>\<^verbatim>\<open>rapide.Currency\<close>, lines 60 to 76: a sequence of Country/Code pairs.\<close>

record currency_entry =
  Country :: string
  Code :: string

definition Currency :: "currency_entry list" where
  "Currency =
    [\<lparr>Country = ''US'', Code = ''USD''\<rparr>,
     \<lparr>Country = ''UK'', Code = ''GBP''\<rparr>,
     \<lparr>Country = ''GB'', Code = ''GBP''\<rparr>,
     \<lparr>Country = ''IN'', Code = ''INR''\<rparr>,
     \<lparr>Country = ''MX'', Code = ''MXN''\<rparr>,
     \<lparr>Country = ''CA'', Code = ''CAD''\<rparr>,
     \<lparr>Country = ''IE'', Code = ''EUR''\<rparr>,
     \<lparr>Country = ''TH'', Code = ''THB''\<rparr>]"

text \<open>\<^verbatim>\<open>rapide.ValidationSchema\<close>, lines 77 to 79.\<close>

record validation_schema_entry =
  Message :: string
  FileName :: string

definition ValidationSchema :: "validation_schema_entry list" where
  "ValidationSchema =
    [\<lparr>Message = ''00800108'',
      FileName = ''CBPRPlus_pacs_008_001_08_20210413_0914.xsd''\<rparr>]"

text \<open>\<^verbatim>\<open>rapide.InvalidMessageRetry\<close>, line 80.\<close>

definition InvalidMessageRetry :: int where
  "InvalidMessageRetry = 10"

text \<open>
  The table read as a mapping: the codes filed under a country, in file order, and the
  lookup that a reader of the table performs (first entry of the country).
\<close>

definition codes_of :: "string \<Rightarrow> string list" where
  "codes_of c = map Code (filter (\<lambda>e. Country e = c) Currency)"

definition currency_of :: "string \<Rightarrow> string option" where
  "currency_of c = map_of (map (\<lambda>e. (Country e, Code e)) Currency) c"

text \<open>
  A list is strictly ascending when each element is strictly below its successor;
  the check walks the list once, as a reader of the file would.
\<close>

fun strictly_ascending :: "string list \<Rightarrow> bool" where
  "strictly_ascending [] = True"
| "strictly_ascending [x] = True"
| "strictly_ascending (x # y # ys) = (x < y \<and> strictly_ascending (y # ys))"


section \<open>The dataset preparation of the notebooks\<close>

text \<open>
  The cells "Select features for training" to "Save training and test datasets to CSV"
  of the Linear Learner notebook (\<^verbatim>\<open>src/unnamed/part_000\<close>, lines 217 to 376; the
  XGBoost notebook repeats them). The cells are straight-line calls of pandas and
  scikit-learn on one data frame. The libraries are no part of the repository: what is
  embedded is the effect of each call, as the library documents it for the arguments the
  cell passes; what a cell leaves to a default is embedded with the default.

  Two things are not represented. A binary64 value is an element of a type \<open>'f\<close>
  that the development never inspects: the value of a literal (\<open>val\<close>), the text
  \<open>str\<close> gives for a value (\<open>repr\<close>) and the text \<open>to_csv\<close> writes for it are
  parameters. The pseudo-random permutation drawn from a seed is a parameter as well.
\<close>

subsection \<open>Errors\<close>

text \<open>
  The exceptions the calls can raise, under the names of the specification:
  \<^item> \<open>SchemaMismatch\<close>: the \<^verbatim>\<open>KeyError\<close> of \<^verbatim>\<open>df[col]\<close> for an absent column label;
  \<^item> \<open>TypeCoercionError\<close>: the \<^verbatim>\<open>ValueError\<close> (or \<^verbatim>\<open>OverflowError\<close>) of
    \<^verbatim>\<open>astype\<close> for a text that is no literal of the target type;
  \<^item> \<open>EmptyDatasetError\<close>: the \<^verbatim>\<open>ValueError\<close> of \<^verbatim>\<open>train_test_split\<close> when the
    train set would be empty;
  \<^item> \<open>InvalidTestSize\<close>: the \<^verbatim>\<open>ValueError\<close> of \<^verbatim>\<open>train_test_split\<close> for a
    \<^verbatim>\<open>test_size\<close> outside the open interval from 0 to 1.
\<close>

datatype error = SchemaMismatch | TypeCoercionError | EmptyDatasetError | InvalidTestSize

subsection \<open>Data frames\<close>

text \<open>
  A cell of a frame read by \<^verbatim>\<open>pd.read_csv\<close>: a missing value (an empty field is read
  as NaN), a text, an integer or a binary64. A frame is the list of its columns in
  order, each a label with its cells; labels may repeat.
\<close>

datatype 'f cell = NaN | Str string | I64 int | F64 'f

type_synonym 'f dataframe = "(string \<times> 'f cell list) list"

definition nrows :: "'f dataframe \<Rightarrow> nat" where
  "nrows df = (case df of [] \<Rightarrow> 0 | c # _ \<Rightarrow> length (snd c))"

text \<open>A list comprehension that stops at the first exception.\<close>

fun mapE :: "('a \<Rightarrow> error + 'b) \<Rightarrow> 'a list \<Rightarrow> error + 'b list" where
  "mapE f [] = Inr []"
| "mapE f (x # xs) =
     (case f x of
        Inl e \<Rightarrow> Inl e
      | Inr y \<Rightarrow> (case mapE f xs of Inl e \<Rightarrow> Inl e | Inr ys \<Rightarrow> Inr (y # ys)))"

subsection \<open>The constants of the cells\<close>

text \<open>Lines 223 to 231: the selected features.\<close>

definition fts :: "string list" where
  "fts =
    [''y_target'',
     ''Document_FIToFICstmrCdtTrf_CdtTrfTxInf_Dbtr_PstlAdr_Ctry'',
     ''Document_FIToFICstmrCdtTrf_CdtTrfTxInf_Cdtr_PstlAdr_Ctry'',
     ''Document_FIToFICstmrCdtTrf_CdtTrfTxInf_RgltryRptg_DbtCdtRptgInd'',
     ''Document_FIToFICstmrCdtTrf_CdtTrfTxInf_RgltryRptg_Authrty_Ctry'',
     ''Document_FIToFICstmrCdtTrf_CdtTrfTxInf_RgltryRptg_Dtls_Cd'',
     ''Document_FIToFICstmrCdtTrf_CdtTrfTxInf_InstrForNxtAgt_InstrInf'']"

text \<open>Lines 246 to 253: the dictionary passed as \<^verbatim>\<open>columns=\<close>.\<close>

definition rename_columns :: "string \<rightharpoonup> string" where
  "rename_columns = map_of
    [(''Document_FIToFICstmrCdtTrf_CdtTrfTxInf_Dbtr_PstlAdr_Ctry'', ''Dbtr_PstlAdr_Ctry''),
     (''Document_FIToFICstmrCdtTrf_CdtTrfTxInf_Cdtr_PstlAdr_Ctry'', ''Cdtr_PstlAdr_Ctry''),
     (''Document_FIToFICstmrCdtTrf_CdtTrfTxInf_RgltryRptg_DbtCdtRptgInd'',
        ''RgltryRptg_DbtCdtRptgInd''),
     (''Document_FIToFICstmrCdtTrf_CdtTrfTxInf_RgltryRptg_Authrty_Ctry'',
        ''RgltryRptg_Authrty_Ctry''),
     (''Document_FIToFICstmrCdtTrf_CdtTrfTxInf_RgltryRptg_Dtls_Cd'', ''RgltryRptg_Dtls_Cd''),
     (''Document_FIToFICstmrCdtTrf_CdtTrfTxInf_InstrForNxtAgt_InstrInf'', ''InstrForNxtAgt'')]"

text \<open>Lines 267 to 286: the four lists that declare the kind of each feature.\<close>

definition categorical_fts :: "string list" where
  "categorical_fts =
    [''Dbtr_PstlAdr_Ctry'', ''Cdtr_PstlAdr_Ctry'', ''RgltryRptg_DbtCdtRptgInd'',
     ''RgltryRptg_Authrty_Ctry'', ''RgltryRptg_Dtls_Cd'']"

definition integer_fts :: "string list" where
  "integer_fts = []"

definition numeric_fts :: "string list" where
  "numeric_fts = []"

definition text_fts :: "string list" where
  "text_fts = []"

subsection \<open>Renaming columns\<close>

text \<open>
  Line 246: \<^verbatim>\<open>selected_df.rename(columns={...})\<close>. The call leaves \<^verbatim>\<open>errors\<close> at its
  default \<^verbatim>\<open>'ignore'\<close>: a label is replaced where the dictionary has it, a key of the
  dictionary that is no label is skipped, and nothing checks the new labels for
  duplicates. The cells are untouched. No branch raises.
\<close>

definition rename_label :: "(string \<rightharpoonup> string) \<Rightarrow> string \<Rightarrow> string" where
  "rename_label columns n = (case columns n of Some n' \<Rightarrow> n' | None \<Rightarrow> n)"

definition rename :: "(string \<rightharpoonup> string) \<Rightarrow> 'f dataframe \<Rightarrow> error + 'f dataframe" where
  "rename columns df = Inr (map (\<lambda>(n, cs). (rename_label columns n, cs)) df)"

subsection \<open>Texts of integers\<close>

text \<open>\<^verbatim>\<open>str\<close> of a Python integer: decimal digits, a minus sign for a negative one.\<close>

definition digit_char :: "nat \<Rightarrow> char" where
  "digit_char d = char_of (48 + d)"

fun show_nat :: "nat \<Rightarrow> string" where
  "show_nat n = (if n < 10 then [digit_char n] else show_nat (n div 10) @ [digit_char (n mod 10)])"

declare show_nat.simps [simp del]

definition show_int :: "int \<Rightarrow> string" where
  "show_int i = (if i < 0 then CHR ''-'' # show_nat (nat (- i)) else show_nat (nat i))"

text \<open>
  The literals \<^verbatim>\<open>int\<close> and \<^verbatim>\<open>float\<close> accept, on ASCII texts: white space is stripped at
  both ends, one sign may lead, and a run of digits may hold single underscores between
  digits.
\<close>

definition is_space :: "char \<Rightarrow> bool" where
  "is_space c = (of_char c \<in> set [9, 10, 11, 12, 13, 28, 29, 30, 31, 32 :: nat])"

definition strip :: "string \<Rightarrow> string" where
  "strip s = rev (dropWhile is_space (rev (dropWhile is_space s)))"

definition is_digit :: "char \<Rightarrow> bool" where
  "is_digit c = (48 \<le> (of_char c :: nat) \<and> (of_char c :: nat) \<le> 57)"

definition digit_val :: "char \<Rightarrow> nat" where
  "digit_val c = of_char c - 48"

text \<open>
  \<open>digitpart acc s\<close> reads the longest run \<^verbatim>\<open>digit (["_"] digit)*\<close> that continues the
  digits already read, whose value is \<open>acc\<close>, and returns the value with the rest.
\<close>

fun digitpart :: "nat \<Rightarrow> string \<Rightarrow> nat \<times> string" where
  "digitpart acc [] = (acc, [])"
| "digitpart acc [c] = (if is_digit c then (10 * acc + digit_val c, []) else (acc, [c]))"
| "digitpart acc (c # d # s) =
     (if is_digit c then digitpart (10 * acc + digit_val c) (d # s)
      else if c = CHR ''_'' \<and> is_digit d then digitpart (10 * acc + digit_val d) s
      else (acc, c # d # s))"

definition digits :: "string \<Rightarrow> (nat \<times> string) option" where
  "digits s =
     (case s of
        [] \<Rightarrow> None
      | c # r \<Rightarrow> if is_digit c then Some (digitpart (digit_val c) r) else None)"

definition skip_sign :: "string \<Rightarrow> string" where
  "skip_sign s =
     (case s of [] \<Rightarrow> [] | c # r \<Rightarrow> if c = CHR ''+'' \<or> c = CHR ''-'' then r else c # r)"

definition parse_int :: "string \<Rightarrow> int option" where
  "parse_int s =
     (let t = strip s
      in case digits (skip_sign t) of
           Some (n, []) \<Rightarrow> Some (if take 1 t = ''-'' then - int n else int n)
         | _ \<Rightarrow> None)"

definition lower :: "char \<Rightarrow> char" where
  "lower c = (if 65 \<le> (of_char c :: nat) \<and> (of_char c :: nat) \<le> 90
              then char_of (of_char c + 32 :: nat) else c)"

definition is_exponent :: "string \<Rightarrow> bool" where
  "is_exponent s =
     (case s of
        [] \<Rightarrow> True
      | c # r \<Rightarrow>
          if lower c = CHR ''e''
          then (case digits (skip_sign r) of Some (_, []) \<Rightarrow> True | _ \<Rightarrow> False)
          else False)"

definition is_floatnumber :: "string \<Rightarrow> bool" where
  "is_floatnumber s =
     (case digits s of
        Some (_, r) \<Rightarrow>
          (case r of
             [] \<Rightarrow> True
           | c # r' \<Rightarrow>
               if c = CHR ''.''
               then (case digits r' of Some (_, r'') \<Rightarrow> is_exponent r'' | None \<Rightarrow> is_exponent r')
               else is_exponent r)
      | None \<Rightarrow>
          (case s of
             [] \<Rightarrow> False
           | c # r' \<Rightarrow>
               if c = CHR ''.''
               then (case digits r' of Some (_, r'') \<Rightarrow> is_exponent r'' | None \<Rightarrow> False)
               else False))"

definition is_float_literal :: "string \<Rightarrow> bool" where
  "is_float_literal s =
     (let t = map lower (skip_sign (strip s))
      in t = ''inf'' \<or> t = ''infinity'' \<or> t = ''nan'' \<or> is_floatnumber t)"

subsection \<open>Assigning the types\<close>

text \<open>
  Lines 288 to 302. Every loop body is \<^verbatim>\<open>selected_df[col].astype(str).astype(T)\<close>:
  the column is turned into texts first, a missing value into the text \<^verbatim>\<open>nan\<close>, and
  the texts are then cast to \<open>T\<close>.
\<close>

fun astype_str :: "('f \<Rightarrow> string) \<Rightarrow> 'f cell \<Rightarrow> string" where
  "astype_str repr NaN = ''nan''"
| "astype_str repr (Str s) = s"
| "astype_str repr (I64 i) = show_int i"
| "astype_str repr (F64 x) = repr x"

text \<open>\<^verbatim>\<open>'category'\<close>: every text is a category of its own; nothing is rejected.\<close>

definition astype_category :: "string \<Rightarrow> error + 'f cell" where
  "astype_category s = Inr (Str s)"

text \<open>\<^verbatim>\<open>'int64'\<close>: the text must be an integer literal within 64 bits.\<close>

definition astype_int64 :: "string \<Rightarrow> error + 'f cell" where
  "astype_int64 s =
     (case parse_int s of
        None \<Rightarrow> Inl TypeCoercionError
      | Some i \<Rightarrow>
          if - (2 ^ 63) \<le> i \<and> i < 2 ^ 63 then Inr (I64 i) else Inl TypeCoercionError)"

text \<open>\<^verbatim>\<open>'float64'\<close>: the text must be a float literal.\<close>

definition astype_float64 :: "(string \<Rightarrow> 'f) \<Rightarrow> string \<Rightarrow> error + 'f cell" where
  "astype_float64 val s =
     (if is_float_literal s then Inr (F64 (val s)) else Inl TypeCoercionError)"

text \<open>\<^verbatim>\<open>'string'\<close>: the text is kept.\<close>

definition astype_string :: "string \<Rightarrow> error + 'f cell" where
  "astype_string s = Inr (Str s)"

text \<open>
  \<^verbatim>\<open>selected_df[col] = cast(selected_df[col])\<close>: reading an absent label raises; the
  cells under the label are replaced by their casts.
\<close>

definition cast_column ::
    "('f cell \<Rightarrow> error + 'f cell) \<Rightarrow> string \<Rightarrow> 'f dataframe \<Rightarrow> error + 'f dataframe" where
  "cast_column cast col df =
     (if col \<in> set (map fst df)
      then mapE (\<lambda>(n, cs). if n = col then map_sum id (Pair n) (mapE cast cs)
                            else Inr (n, cs)) df
      else Inl SchemaMismatch)"

text \<open>\<^verbatim>\<open>for col in cols: ...\<close>\<close>

fun cast_columns ::
    "('f cell \<Rightarrow> error + 'f cell) \<Rightarrow> string list \<Rightarrow> 'f dataframe \<Rightarrow> error + 'f dataframe" where
  "cast_columns cast [] df = Inr df"
| "cast_columns cast (col # cols) df =
     (case cast_column cast col df of
        Inl e \<Rightarrow> Inl e
      | Inr df' \<Rightarrow> cast_columns cast cols df')"

text \<open>The four loops in the order of the cell.\<close>

definition assign_types ::
    "(string \<Rightarrow> 'f) \<Rightarrow> ('f \<Rightarrow> string) \<Rightarrow> string list \<Rightarrow> string list \<Rightarrow> string list \<Rightarrow> string list
      \<Rightarrow> 'f dataframe \<Rightarrow> error + 'f dataframe" where
  "assign_types val repr categorical integer numeric text df =
     (case cast_columns (astype_category \<circ> astype_str repr) categorical df of
        Inl e \<Rightarrow> Inl e
      | Inr df1 \<Rightarrow>
     (case cast_columns (astype_int64 \<circ> astype_str repr) integer df1 of
        Inl e \<Rightarrow> Inl e
      | Inr df2 \<Rightarrow>
     (case cast_columns (astype_float64 val \<circ> astype_str repr) numeric df2 of
        Inl e \<Rightarrow> Inl e
      | Inr df3 \<Rightarrow> cast_columns (astype_string \<circ> astype_str repr) text df3)))"

subsection \<open>Encoding the target\<close>

text \<open>
  Lines 304 and 305: \<^verbatim>\<open>label_encoder.fit_transform(selected_df['y_target'])\<close>.
  \<^verbatim>\<open>fit\<close> stores the distinct labels in ascending order (\<^verbatim>\<open>classes_\<close>, the result of
  \<^verbatim>\<open>np.unique\<close>); \<^verbatim>\<open>transform\<close> replaces a label by its position in \<^verbatim>\<open>classes_\<close>.
  The labels of the notebooks are the texts of the column \<^verbatim>\<open>y_target\<close>.
\<close>

definition classes :: "'a::linorder list \<Rightarrow> 'a list" where
  "classes y = sort (remdups y)"

definition class_index :: "'a list \<Rightarrow> 'a \<Rightarrow> nat" where
  "class_index cs v = length (takeWhile (\<lambda>c. c \<noteq> v) cs)"

definition fit_transform :: "'a::linorder list \<Rightarrow> nat list" where
  "fit_transform y = map (class_index (classes y)) y"

text \<open>The label map: each class with its code.\<close>

definition label_map :: "'a::linorder list \<Rightarrow> ('a \<times> nat) list" where
  "label_map y = zip (classes y) [0..<length (classes y)]"

subsection \<open>Splitting\<close>







subsection \<open>Writing CSV\<close>

text \<open>
  Lines 368 to 376: \<^verbatim>\<open>to_csv(path, index=False)\<close> and
  \<^verbatim>\<open>to_csv(path, header=False, index=False)\<close>. The writer separates fields by a comma,
  ends each record with a line feed, and quotes a field only when it holds a comma, a
  double quote or a line feed, doubling the double quotes inside. A missing value is
  written as the empty text; a record that would be empty is written as two double
  quotes.
\<close>

definition quote_minimal :: "string \<Rightarrow> string" where
  "quote_minimal s =
     (if list_ex (\<lambda>c. c \<in> set [CHR '','', CHR 0x22, CHR 0x0A]) s
      then [CHR 0x22] @ concat (map (\<lambda>c. if c = CHR 0x22 then [c, c] else [c]) s) @ [CHR 0x22]
      else s)"

fun join :: "string \<Rightarrow> string list \<Rightarrow> string" where
  "join sep [] = []"
| "join sep [x] = x"
| "join sep (x # y # ys) = x @ sep @ join sep (y # ys)"

definition writerow :: "string list \<Rightarrow> string" where
  "writerow row =
     (if row = [[]] then [CHR 0x22, CHR 0x22] else join '','' (map quote_minimal row))
     @ [CHR 0x0A]"

fun csv_text :: "('f \<Rightarrow> string) \<Rightarrow> 'f cell \<Rightarrow> string" where
  "csv_text fmt NaN = []"
| "csv_text fmt (Str s) = s"
| "csv_text fmt (I64 i) = show_int i"
| "csv_text fmt (F64 x) = fmt x"

definition record_fields :: "('f \<Rightarrow> string) \<Rightarrow> 'f dataframe \<Rightarrow> nat \<Rightarrow> string list" where
  "record_fields fmt df i = map (\<lambda>c. csv_text fmt (snd c ! i)) df"

definition to_csv :: "('f \<Rightarrow> string) \<Rightarrow> bool \<Rightarrow> 'f dataframe \<Rightarrow> string" where
  "to_csv fmt header df =
     concat ((if header then [writerow (map fst df)] else [])
             @ map (\<lambda>i. writerow (record_fields fmt df i)) [0..<nrows df])"

subsection \<open>Notions used in the proofs\<close>

text \<open>
  \<open>col_rel cast S c c'\<close>: column \<open>c'\<close> is column \<open>c\<close> after a successful pass that
  casts the columns with a label in \<open>S\<close>.
\<close>

definition col_rel ::
    "('f cell \<Rightarrow> error + 'f cell) \<Rightarrow> string set \<Rightarrow> string \<times> 'f cell list
      \<Rightarrow> string \<times> 'f cell list \<Rightarrow> bool" where
  "col_rel cast S c c' \<longleftrightarrow>
     fst c' = fst c \<and>
     (if fst c \<in> S then list_all2 (\<lambda>x y. cast x = Inr y) (snd c) (snd c') else snd c' = snd c)"

text \<open>A cast fixes its own results.\<close>

definition fixes_own :: "('f cell \<Rightarrow> error + 'f cell) \<Rightarrow> bool" where
  "fixes_own cast \<longleftrightarrow> (\<forall>c c'. cast c = Inr c' \<longrightarrow> cast c' = Inr c')"

text \<open>Every cell under a label in \<open>S\<close> is left as it is by the cast.\<close>

definition fixed_on :: "('f cell \<Rightarrow> error + 'f cell) \<Rightarrow> string set \<Rightarrow> 'f dataframe \<Rightarrow> bool" where
  "fixed_on cast S df \<longleftrightarrow>
     (\<forall>c \<in> set df. fst c \<in> S \<longrightarrow> (\<forall>x \<in> set (snd c). cast x = Inr x))"



section \<open>Properties of the configuration\<close>

lemma strictly_ascending_sorted_wrt:
  "strictly_ascending xs = sorted_wrt (<) xs"
proof (induction xs rule: strictly_ascending.induct)
  case (3 x y ys)
  then show ?case by (auto intro: less_trans)
qed simp_all

text \<open>
  Claim C10. The PurposeCode list of the configuration has no duplicate entry and is in
  strictly ascending lexicographic order: every entry is strictly below each later
  entry.
\<close>

theorem PurposeCode_distinct_ascending:
  "distinct PurposeCode \<and> strictly_ascending PurposeCode \<and> sorted_wrt (<) PurposeCode
   \<and> length PurposeCode = 34"
proof -
  have asc: "strictly_ascending PurposeCode"
    by (simp add: PurposeCode_def)
  then have sw: "sorted_wrt (<) PurposeCode"
    by (simp add: strictly_ascending_sorted_wrt)
  then have "distinct PurposeCode"
    by (simp add: strict_sorted_iff)
  moreover have "length PurposeCode = 34"
    by (simp add: PurposeCode_def)
  ultimately show ?thesis using asc sw by simp
qed

text \<open>
  Claim C8. The country-to-currency table is a many-to-one mapping: no country is listed
  twice, so every listed country has exactly one currency code; GB and UK are different
  countries with the same code GBP; and the retry count for invalid messages is the
  fixed non-negative integer 10.
\<close>

theorem Currency_many_to_one:
  "map Country Currency = [''US'', ''UK'', ''GB'', ''IN'', ''MX'', ''CA'', ''IE'', ''TH'']
   \<and> distinct (map Country Currency)
   \<and> map codes_of (map Country Currency) =
       [[''USD''], [''GBP''], [''GBP''], [''INR''], [''MXN''], [''CAD''], [''EUR''], [''THB'']]
   \<and> currency_of ''GB'' = Some ''GBP'' \<and> currency_of ''UK'' = Some ''GBP''
   \<and> ''GB'' \<noteq> ''UK''
   \<and> InvalidMessageRetry = 10 \<and> 0 \<le> InvalidMessageRetry"
  by (simp add: Currency_def codes_of_def currency_of_def InvalidMessageRetry_def)


section \<open>Properties of the dataset preparation\<close>

subsection \<open>Passes over the columns\<close>

lemma mapE_Inr_iff: "mapE f xs = Inr ys \<longleftrightarrow> list_all2 (\<lambda>x y. f x = Inr y) xs ys"
proof (induction xs arbitrary: ys)
  case Nil
  then show ?case by auto
next
  case (Cons x xs)
  show ?case
  proof (cases "f x")
    case (Inl e)
    then show ?thesis by (simp add: list_all2_Cons1)
  next
    case (Inr y)
    show ?thesis
    proof (cases "mapE f xs")
      case (Inl e)
      then have "\<not> list_all2 (\<lambda>x y. f x = Inr y) xs zs" for zs
        using Cons.IH [of zs] by simp
      then show ?thesis using Inl Inr by (simp add: list_all2_Cons1)
    next
      case r: (Inr zs)
      then have "list_all2 (\<lambda>x y. f x = Inr y) xs zs' \<longleftrightarrow> zs' = zs" for zs'
        using Cons.IH [of zs'] by auto
      then show ?thesis using r Inr by (auto simp: list_all2_Cons1)
    qed
  qed
qed


lemma cast_column_Inr_iff:
  "cast_column cast col df = Inr df' \<longleftrightarrow>
     col \<in> fst ` set df \<and> list_all2 (col_rel cast {col}) df df'"
proof -
  have "(case c of (n, cs) \<Rightarrow> if n = col then map_sum id (Pair n) (mapE cast cs) else Inr (n, cs)) = Inr c'
        \<longleftrightarrow> col_rel cast {col} c c'" for c c'
    by (cases c; cases c'; cases "mapE cast (snd c)")
       (auto simp: col_rel_def mapE_Inr_iff [symmetric])
  then show ?thesis
    by (simp add: cast_column_def mapE_Inr_iff)
qed

lemma col_rel_trans:
  assumes F: "fixes_own cast" and 1: "col_rel cast S a b" and 2: "col_rel cast T b c"
  shows "col_rel cast (S \<union> T) a c"
proof -
  have n: "fst b = fst a" "fst c = fst a" using 1 2 by (auto simp: col_rel_def)
  show ?thesis
  proof (cases "fst a \<in> S")
    case inS: True
    then have ab: "list_all2 (\<lambda>x y. cast x = Inr y) (snd a) (snd b)"
      using 1 by (simp add: col_rel_def)
    show ?thesis
    proof (cases "fst a \<in> T")
      case True
      then have bc: "list_all2 (\<lambda>x y. cast x = Inr y) (snd b) (snd c)"
        using 2 n by (simp add: col_rel_def)
      have "snd c = snd b"
        unfolding list_eq_iff_nth_eq
      proof (intro conjI allI impI)
        show "length (snd c) = length (snd b)" using bc by (simp add: list_all2_lengthD)
        fix i assume "i < length (snd c)"
        then have i: "i < length (snd b)" "i < length (snd a)"
          using ab bc by (simp_all add: list_all2_lengthD)
        have "cast (snd a ! i) = Inr (snd b ! i)" using ab i(2) by (rule list_all2_nthD)
        then have "cast (snd b ! i) = Inr (snd b ! i)" using F by (auto simp: fixes_own_def)
        moreover have "cast (snd b ! i) = Inr (snd c ! i)" using bc i(1) by (rule list_all2_nthD)
        ultimately show "snd c ! i = snd b ! i" by simp
      qed
      then show ?thesis using ab inS n by (simp add: col_rel_def)
    next
      case False
      then have "snd c = snd b" using 2 n by (simp add: col_rel_def)
      then show ?thesis using ab inS n by (simp add: col_rel_def)
    qed
  next
    case notS: False
    then have "snd b = snd a" using 1 by (simp add: col_rel_def)
    then show ?thesis using 2 n notS by (auto simp: col_rel_def)
  qed
qed

lemma col_rel_refl: "col_rel cast {} a a"
  by (simp add: col_rel_def)

lemma list_all2_col_rel_trans:
  assumes F: "fixes_own cast"
  shows "list_all2 (col_rel cast S) xs ys \<Longrightarrow> list_all2 (col_rel cast T) ys zs
          \<Longrightarrow> list_all2 (col_rel cast (S \<union> T)) xs zs"
  by (rule list_all2_trans [where ?P1.0 = "col_rel cast S" and ?P2.0 = "col_rel cast T"])
     (auto intro: col_rel_trans [OF F])

lemma cast_columns_col_rel:
  assumes F: "fixes_own cast"
  shows "cast_columns cast cols df = Inr df' \<Longrightarrow>
         set cols \<subseteq> fst ` set df \<and> list_all2 (col_rel cast (set cols)) df df'"
proof (induction cols arbitrary: df)
  case Nil
  then show ?case by (simp add: list_all2_same col_rel_refl)
next
  case (Cons col cols)
  from Cons.prems obtain df1 where 1: "cast_column cast col df = Inr df1"
    and 2: "cast_columns cast cols df1 = Inr df'"
    by (auto split: sum.splits)
  from 1 have c: "col \<in> fst ` set df" and r1: "list_all2 (col_rel cast {col}) df df1"
    by (simp_all add: cast_column_Inr_iff)
  from Cons.IH [OF 2] have s: "set cols \<subseteq> fst ` set df1"
    and r2: "list_all2 (col_rel cast (set cols)) df1 df'" by simp_all
  have "map fst df1 = map fst df"
    using r1 by (induction df df1 rule: list_all2_induct) (auto simp: col_rel_def)
  then have "fst ` set df1 = fst ` set df" by (metis set_map)
  moreover have "list_all2 (col_rel cast ({col} \<union> set cols)) df df'"
    by (rule list_all2_col_rel_trans [OF F r1 r2])
  ultimately show ?case using c s by simp
qed

lemma list_all2_right_elem: "list_all2 R xs ys \<Longrightarrow> y \<in> set ys \<Longrightarrow> \<exists>x \<in> set xs. R x y"
  by (induction xs ys rule: list_all2_induct) auto

lemma col_rel_names: "list_all2 (col_rel cast S) df df' \<Longrightarrow> map fst df' = map fst df"
  by (induction df df' rule: list_all2_induct) (auto simp: col_rel_def)

lemma col_rel_labels: "list_all2 (col_rel cast S) df df' \<Longrightarrow> fst ` set df' = fst ` set df"
  by (metis col_rel_names set_map)

lemma col_rel_fixed_on:
  assumes F: "fixes_own cast" and r: "list_all2 (col_rel cast S) df df'"
  shows "fixed_on cast S df'"
  unfolding fixed_on_def
proof (intro ballI impI)
  fix c' y assume c': "c' \<in> set df'" and S: "fst c' \<in> S" and y: "y \<in> set (snd c')"
  from r c' obtain c where c: "c \<in> set df" and cr: "col_rel cast S c c'"
    by (blast dest: list_all2_right_elem)
  from cr S have "list_all2 (\<lambda>x y. cast x = Inr y) (snd c) (snd c')"
    by (simp add: col_rel_def)
  with y obtain x where "cast x = Inr y"
    by (blast dest: list_all2_right_elem)
  with F show "cast y = Inr y" by (auto simp: fixes_own_def)
qed

lemma col_rel_unchanged:
  assumes r: "list_all2 (col_rel cast S) df df'" and "c' \<in> set df'" and "fst c' \<notin> S"
  shows "c' \<in> set df"
proof -
  from r assms(2) obtain c where c: "c \<in> set df" and cr: "col_rel cast S c c'"
    by (blast dest: list_all2_right_elem)
  with assms(3) have "c' = c" by (auto simp: col_rel_def prod_eq_iff)
  with c show ?thesis by simp
qed

lemma fixed_on_preserved:
  assumes "list_all2 (col_rel cast' T) df df'" and "fixed_on cast S df" and "S \<inter> T = {}"
  shows "fixed_on cast S df'"
  unfolding fixed_on_def
proof (intro ballI impI)
  fix c' y assume c': "c' \<in> set df'" and S: "fst c' \<in> S" and y: "y \<in> set (snd c')"
  from S assms(3) have "fst c' \<notin> T" by auto
  from col_rel_unchanged [OF assms(1) c' this] have "c' \<in> set df" .
  with assms(2) S y show "cast y = Inr y" by (auto simp: fixed_on_def)
qed

lemma cast_column_fixed:
  assumes "col \<in> fst ` set df" and "fixed_on cast {col} df"
  shows "cast_column cast col df = Inr df"
proof -
  have "col_rel cast {col} c c" if "c \<in> set df" for c
    using that assms(2) by (auto simp: col_rel_def fixed_on_def list_all2_same)
  then show ?thesis
    using assms(1) by (simp add: cast_column_Inr_iff list_all2_same)
qed

lemma cast_columns_fixed:
  "set cols \<subseteq> fst ` set df \<Longrightarrow> fixed_on cast (set cols) df \<Longrightarrow> cast_columns cast cols df = Inr df"
proof (induction cols)
  case Nil
  then show ?case by simp
next
  case (Cons col cols)
  have "fixed_on cast {col} df" "fixed_on cast (set cols) df"
    using Cons.prems(2) by (auto simp: fixed_on_def)
  then show ?case
    using Cons by (simp add: cast_column_fixed)
qed

subsection \<open>Printing and reading integers\<close>

lemma digit_char_props:
  assumes "d < 10"
  shows "is_digit (digit_char d) \<and> digit_val (digit_char d) = d"
proof -
  have "of_char (digit_char d) = (48 + d :: nat)"
    using assms by (simp add: digit_char_def)
  then show ?thesis
    using assms by (simp add: is_digit_def digit_val_def)
qed

lemma is_digit_not_space: "is_digit c \<Longrightarrow> \<not> is_space c"
  by (auto simp: is_digit_def is_space_def)

lemma is_digit_not_sign: "is_digit c \<Longrightarrow> c \<noteq> CHR ''+'' \<and> c \<noteq> CHR ''-''"
  by (auto simp: is_digit_def)

lemma digitpart_all_digits:
  "list_all is_digit s \<Longrightarrow>
   digitpart acc s = (foldl (\<lambda>a c. 10 * a + digit_val c) acc s, [])"
  by (induction acc s rule: digitpart.induct) auto

lemma show_nat_props:
  "list_all is_digit (show_nat n) \<and> show_nat n \<noteq> []
   \<and> foldl (\<lambda>a c. 10 * a + digit_val c) 0 (show_nat n) = n"
proof (induction n rule: show_nat.induct)
  case (1 n)
  show ?case
  proof (cases "n < 10")
    case True
    then show ?thesis
      by (subst (1 2 3) show_nat.simps) (simp add: digit_char_props)
  next
    case False
    have m: "n mod 10 < 10" by simp
    from False 1 show ?thesis
      by (subst (1 2 3) show_nat.simps) (simp add: digit_char_props [OF m])
  qed
qed

lemma digits_show_nat: "digits (show_nat n) = Some (n, [])"
proof -
  obtain c r where s: "show_nat n = c # r"
    using show_nat_props [of n] by (cases "show_nat n") auto
  have d: "list_all is_digit (c # r)" and v: "foldl (\<lambda>a c. 10 * a + digit_val c) 0 (c # r) = n"
    using show_nat_props [of n] s by simp_all
  then show ?thesis
    by (simp add: digits_def s digitpart_all_digits)
qed

lemma dropWhile_id: "xs \<noteq> [] \<Longrightarrow> \<not> P (hd xs) \<Longrightarrow> dropWhile P xs = xs"
  by (cases xs) auto

lemma strip_id: "s \<noteq> [] \<Longrightarrow> \<not> is_space (hd s) \<Longrightarrow> \<not> is_space (last s) \<Longrightarrow> strip s = s"
  by (simp add: strip_def dropWhile_id hd_rev)

lemma show_nat_ends: "is_digit (hd (show_nat n)) \<and> is_digit (last (show_nat n))"
  using show_nat_props [of n] by (auto simp: list_all_iff)

lemma parse_int_show_int: "parse_int (show_int i) = Some i"
proof (cases "i < 0")
  case True
  let ?s = "show_nat (nat (- i))"
  have "strip (CHR ''-'' # ?s) = CHR ''-'' # ?s"
    using show_nat_props [of "nat (- i)"] show_nat_ends [of "nat (- i)"]
    by (intro strip_id) (auto simp: is_space_def dest: is_digit_not_space)
  then show ?thesis
    using True by (simp add: parse_int_def show_int_def skip_sign_def digits_show_nat)
next
  case False
  let ?s = "show_nat (nat i)"
  obtain c r where s: "?s = c # r"
    using show_nat_props [of "nat i"] by (cases ?s) auto
  have c: "is_digit c" using show_nat_ends [of "nat i"] s by simp
  have "strip ?s = ?s"
    using show_nat_props [of "nat i"] show_nat_ends [of "nat i"]
    by (intro strip_id) (auto dest: is_digit_not_space)
  moreover have "skip_sign ?s = ?s"
    using c is_digit_not_sign [OF c] by (simp add: skip_sign_def s)
  moreover have "take 1 ?s \<noteq> ''-''"
    using is_digit_not_sign [OF c] by (simp add: s)
  ultimately show ?thesis
    using False by (simp add: parse_int_def show_int_def digits_show_nat)
qed

lemma fixes_own_category: "fixes_own (astype_category \<circ> astype_str repr)"
  by (auto simp: fixes_own_def astype_category_def)

lemma fixes_own_string: "fixes_own (astype_string \<circ> astype_str repr)"
  by (auto simp: fixes_own_def astype_string_def)

lemma fixes_own_int64: "fixes_own (astype_int64 \<circ> astype_str repr)"
  by (auto simp: fixes_own_def astype_int64_def parse_int_show_int split: option.splits if_splits)

lemma fixes_own_float64:
  "(\<And>x. is_float_literal (repr x) \<and> val (repr x) = x) \<Longrightarrow>
   fixes_own (astype_float64 val \<circ> astype_str repr)"
  by (auto simp: fixes_own_def astype_float64_def split: if_splits)

subsection \<open>Success, failure and single cells of a pass\<close>

lemma col_rel_nth:
  assumes "list_all2 (col_rel cast S) df df'" and "j < length df"
  shows "fst (df' ! j) = fst (df ! j)"
    and "length (snd (df' ! j)) = length (snd (df ! j))"
    and "fst (df ! j) \<notin> S \<Longrightarrow> snd (df' ! j) = snd (df ! j)"
    and "fst (df ! j) \<in> S \<Longrightarrow> i < length (snd (df ! j))
          \<Longrightarrow> cast (snd (df ! j) ! i) = Inr (snd (df' ! j) ! i)"
proof -
  have r: "col_rel cast S (df ! j) (df' ! j)"
    using assms by (rule list_all2_nthD)
  show "fst (df' ! j) = fst (df ! j)" using r by (simp add: col_rel_def)
  show "length (snd (df' ! j)) = length (snd (df ! j))"
    using r by (auto simp: col_rel_def dest: list_all2_lengthD split: if_splits)
  show "fst (df ! j) \<notin> S \<Longrightarrow> snd (df' ! j) = snd (df ! j)"
    using r by (simp add: col_rel_def)
  show "fst (df ! j) \<in> S \<Longrightarrow> i < length (snd (df ! j))
          \<Longrightarrow> cast (snd (df ! j) ! i) = Inr (snd (df' ! j) ! i)"
    using r by (auto simp: col_rel_def dest: list_all2_nthD)
qed

text \<open>Without any assumption on the cast: labels, lengths and the columns not listed.\<close>

lemma cast_columns_frame:
  "cast_columns cast cols df = Inr df' \<Longrightarrow>
   list_all2 (\<lambda>c c'. fst c' = fst c \<and> length (snd c') = length (snd c)
                      \<and> (fst c \<notin> set cols \<longrightarrow> snd c' = snd c)) df df'"
proof (induction cols arbitrary: df)
  case Nil
  then show ?case by (simp add: list_all2_same)
next
  case (Cons col cols)
  from Cons.prems obtain df1 where 1: "cast_column cast col df = Inr df1"
    and 2: "cast_columns cast cols df1 = Inr df'"
    by (auto split: sum.splits)
  from 1 have r1: "list_all2 (col_rel cast {col}) df df1"
    by (simp add: cast_column_Inr_iff)
  have s1: "list_all2 (\<lambda>c c'. fst c' = fst c \<and> length (snd c') = length (snd c)
                      \<and> (fst c \<notin> set (col # cols) \<longrightarrow> snd c' = snd c)) df df1"
    by (rule list_all2_mono [OF r1])
       (auto simp: col_rel_def dest: list_all2_lengthD split: if_splits)
  have s2: "list_all2 (\<lambda>c c'. fst c' = fst c \<and> length (snd c') = length (snd c)
                      \<and> (fst c \<notin> set (col # cols) \<longrightarrow> snd c' = snd c)) df1 df'"
    by (rule list_all2_mono [OF Cons.IH [OF 2]]) auto
  show ?case
    by (rule list_all2_trans [OF _ s1 s2]) auto
qed

lemma cast_columns_frame_nth:
  assumes "cast_columns cast cols df = Inr df'" and "j < length df"
  shows "fst (df' ! j) = fst (df ! j)"
    and "length (snd (df' ! j)) = length (snd (df ! j))"
    and "fst (df ! j) \<notin> set cols \<Longrightarrow> snd (df' ! j) = snd (df ! j)"
  using list_all2_nthD [OF cast_columns_frame [OF assms(1)] assms(2)] by simp_all

lemma cast_columns_length: "cast_columns cast cols df = Inr df' \<Longrightarrow> length df' = length df"
  by (drule cast_columns_frame) (rule list_all2_lengthD [symmetric])












subsection \<open>Assigning the types twice\<close>

text \<open>
  Claim C7. When the four lists give every label at most one kind and
  \<open>assign_types\<close> succeeds on a frame, \<open>assign_types\<close> with the same lists succeeds
  on its result and returns that result unchanged. Binary64 values enter through the
  parameters: the text \<open>str\<close> gives for a value is a float literal whose value is that
  value again.
\<close>

theorem assign_types_idem:
  assumes ok: "assign_types val repr categorical integer numeric text df = Inr df'"
    and float: "\<And>x. is_float_literal (repr x) \<and> val (repr x) = x"
    and disj: "set categorical \<inter> set integer = {}" "set categorical \<inter> set numeric = {}"
      "set categorical \<inter> set text = {}" "set integer \<inter> set numeric = {}"
      "set integer \<inter> set text = {}" "set numeric \<inter> set text = {}"
  shows "assign_types val repr categorical integer numeric text df' = Inr df'"
proof -
  let ?c = "astype_category \<circ> astype_str repr" and ?i = "astype_int64 \<circ> astype_str repr"
  let ?n = "astype_float64 val \<circ> astype_str repr" and ?t = "astype_string \<circ> astype_str repr"
  have Fn: "fixes_own ?n" by (rule fixes_own_float64) (rule float)
  from ok obtain df1 df2 df3 where
    p1: "cast_columns ?c categorical df = Inr df1" and
    p2: "cast_columns ?i integer df1 = Inr df2" and
    p3: "cast_columns ?n numeric df2 = Inr df3" and
    p4: "cast_columns ?t text df3 = Inr df'"
    by (auto simp: assign_types_def split: sum.splits)
  note q1 = cast_columns_col_rel [OF fixes_own_category p1]
  note q2 = cast_columns_col_rel [OF fixes_own_int64 p2]
  note q3 = cast_columns_col_rel [OF Fn p3]
  note q4 = cast_columns_col_rel [OF fixes_own_string p4]
  note r1 = q1 [THEN conjunct2] and r2 = q2 [THEN conjunct2]
    and r3 = q3 [THEN conjunct2] and r4 = q4 [THEN conjunct2]
  have l3: "fst ` set df' = fst ` set df3" by (rule col_rel_labels [OF r4])
  have l2: "fst ` set df' = fst ` set df2" using l3 col_rel_labels [OF r3] by simp
  have l1: "fst ` set df' = fst ` set df1" using l2 col_rel_labels [OF r2] by simp
  have l0: "fst ` set df' = fst ` set df" using l1 col_rel_labels [OF r1] by simp
  have f1: "fixed_on ?c (set categorical) df'"
  proof -
    have "fixed_on ?c (set categorical) df1"
      by (rule col_rel_fixed_on [OF fixes_own_category r1])
    then have "fixed_on ?c (set categorical) df2"
      by (rule fixed_on_preserved [OF r2 _ disj(1)])
    then have "fixed_on ?c (set categorical) df3"
      by (rule fixed_on_preserved [OF r3 _ disj(2)])
    then show ?thesis
      by (rule fixed_on_preserved [OF r4 _ disj(3)])
  qed
  have f2: "fixed_on ?i (set integer) df'"
  proof -
    have "fixed_on ?i (set integer) df2"
      by (rule col_rel_fixed_on [OF fixes_own_int64 r2])
    then have "fixed_on ?i (set integer) df3"
      by (rule fixed_on_preserved [OF r3 _ disj(4)])
    then show ?thesis
      by (rule fixed_on_preserved [OF r4 _ disj(5)])
  qed
  have f3: "fixed_on ?n (set numeric) df'"
  proof -
    have "fixed_on ?n (set numeric) df3"
      by (rule col_rel_fixed_on [OF Fn r3])
    then show ?thesis
      by (rule fixed_on_preserved [OF r4 _ disj(6)])
  qed
  have f4: "fixed_on ?t (set text) df'"
    by (rule col_rel_fixed_on [OF fixes_own_string r4])
  have "cast_columns ?c categorical df' = Inr df'"
    using q1 l0 by (intro cast_columns_fixed f1) simp
  moreover have "cast_columns ?i integer df' = Inr df'"
    using q2 l1 by (intro cast_columns_fixed f2) simp
  moreover have "cast_columns ?n numeric df' = Inr df'"
    using q3 l2 by (intro cast_columns_fixed f3) simp
  moreover have "cast_columns ?t text df' = Inr df'"
    using q4 l3 by (intro cast_columns_fixed f4) simp
  ultimately show ?thesis by (simp add: assign_types_def)
qed

theorem assign_types_idem_witness:
  "assign_types (\<lambda>s. ()) (\<lambda>x. ''0.0'') [''c''] [''n''] [''x''] [''t'']
       [(''y'', [Str ''Success'', Str ''Failure'']), (''c'', [NaN, Str ''GB'']),
        (''n'', [Str '' 42 '', I64 (-7)]), (''x'', [Str ''1.5'', NaN]), (''t'', [NaN, Str ''a, b''])]
     = Inr [(''y'', [Str ''Success'', Str ''Failure'']), (''c'', [Str ''nan'', Str ''GB'']),
        (''n'', [I64 42, I64 (-7)]), (''x'', [F64 (), F64 ()]), (''t'', [Str ''nan'', Str ''a, b''])]
   \<and> assign_types (\<lambda>s. ()) (\<lambda>x. ''0.0'') [''c''] [''n''] [''x''] [''t'']
       [(''y'', [Str ''Success'', Str ''Failure'']), (''c'', [Str ''nan'', Str ''GB'']),
        (''n'', [I64 42, I64 (-7)]), (''x'', [F64 (), F64 ()]), (''t'', [Str ''nan'', Str ''a, b''])]
     = Inr [(''y'', [Str ''Success'', Str ''Failure'']), (''c'', [Str ''nan'', Str ''GB'']),
        (''n'', [I64 42, I64 (-7)]), (''x'', [F64 (), F64 ()]), (''t'', [Str ''nan'', Str ''a, b''])]"
proof -
  have ok: "assign_types (\<lambda>s. ()) (\<lambda>x. ''0.0'') [''c''] [''n''] [''x''] [''t'']
       [(''y'', [Str ''Success'', Str ''Failure'']), (''c'', [NaN, Str ''GB'']),
        (''n'', [Str '' 42 '', I64 (-7)]), (''x'', [Str ''1.5'', NaN]), (''t'', [NaN, Str ''a, b''])]
     = Inr [(''y'', [Str ''Success'', Str ''Failure'']), (''c'', [Str ''nan'', Str ''GB'']),
        (''n'', [I64 42, I64 (-7)]), (''x'', [F64 (), F64 ()]), (''t'', [Str ''nan'', Str ''a, b''])]"
    by code_simp
  have lit: "is_float_literal ((\<lambda>x::unit. ''0.0'') x) \<and> (\<lambda>s. ()) ((\<lambda>x::unit. ''0.0'') x) = x" for x
    by code_simp
  show ?thesis
    using ok assign_types_idem [OF ok lit] by simp
qed

subsection \<open>Missing categorical values\<close>

text \<open>
  Claim C9. When \<open>assign_types\<close> succeeds, a cell that was missing (NaN) in a column
  declared categorical, and not declared integer or numeric, holds the text \<open>nan\<close>
  afterwards: it is a category of its own. In the CSV record of its row the field, which
  was empty for the frame as read, is now the text \<open>nan\<close>, written without quotes.
\<close>

theorem missing_categorical_is_nan:
  assumes ok: "assign_types val repr categorical integer numeric text df = Inr df'"
    and col: "col \<in> set categorical" "col \<notin> set integer" "col \<notin> set numeric"
    and j: "j < length df" "fst (df ! j) = col"
    and i: "i < length (snd (df ! j))" "snd (df ! j) ! i = NaN"
  shows "fst (df' ! j) = col \<and> snd (df' ! j) ! i = Str ''nan''
       \<and> record_fields fmt df i ! j = [] \<and> record_fields fmt df' i ! j = ''nan''
       \<and> quote_minimal (record_fields fmt df' i ! j) = ''nan''"
proof -
  let ?c = "astype_category \<circ> astype_str repr" and ?i = "astype_int64 \<circ> astype_str repr"
  let ?n = "astype_float64 val \<circ> astype_str repr" and ?t = "astype_string \<circ> astype_str repr"
  from ok obtain df1 df2 df3 where
    p1: "cast_columns ?c categorical df = Inr df1" and
    p2: "cast_columns ?i integer df1 = Inr df2" and
    p3: "cast_columns ?n numeric df2 = Inr df3" and
    p4: "cast_columns ?t text df3 = Inr df'"
    by (auto simp: assign_types_def split: sum.splits)
  note r1 = cast_columns_col_rel [OF fixes_own_category p1, THEN conjunct2]
  note r4 = cast_columns_col_rel [OF fixes_own_string p4, THEN conjunct2]
  have j1: "j < length df1" using j(1) cast_columns_length [OF p1] by simp
  have j2: "j < length df2" using j1 cast_columns_length [OF p2] by simp
  have j3: "j < length df3" using j2 cast_columns_length [OF p3] by simp
  have j4: "j < length df'" using j3 cast_columns_length [OF p4] by simp
  have c1: "fst (df1 ! j) = col" "i < length (snd (df1 ! j))" "snd (df1 ! j) ! i = Str ''nan''"
  proof -
    show "fst (df1 ! j) = col" using col_rel_nth(1) [OF r1 j(1)] j(2) by simp
    show "i < length (snd (df1 ! j))" using col_rel_nth(2) [OF r1 j(1)] i(1) by simp
    have "?c (snd (df ! j) ! i) = Inr (snd (df1 ! j) ! i)"
      using col_rel_nth(4) [OF r1 j(1), of i] j(2) col(1) i(1) by simp
    then show "snd (df1 ! j) ! i = Str ''nan''"
      using i(2) by (simp add: astype_category_def)
  qed
  have c2: "fst (df2 ! j) = col" "snd (df2 ! j) = snd (df1 ! j)"
    using cast_columns_frame_nth [OF p2 j1] c1(1) col(2) by simp_all
  have c3: "fst (df3 ! j) = col" "snd (df3 ! j) = snd (df1 ! j)"
    using cast_columns_frame_nth [OF p3 j2] c2 col(3) by simp_all
  have c4: "fst (df' ! j) = col" "snd (df' ! j) ! i = Str ''nan''"
  proof -
    show "fst (df' ! j) = col" using col_rel_nth(1) [OF r4 j3] c3(1) by simp
    show "snd (df' ! j) ! i = Str ''nan''"
    proof (cases "col \<in> set text")
      case True
      then have "?t (snd (df3 ! j) ! i) = Inr (snd (df' ! j) ! i)"
        using col_rel_nth(4) [OF r4 j3, of i] c3 c1(2) by simp
      then show ?thesis using c3(2) c1(3) by (simp add: astype_string_def)
    next
      case False
      then show ?thesis using col_rel_nth(3) [OF r4 j3] c3 c1(3) by simp
    qed
  qed
  have "record_fields fmt df i ! j = []"
    using j(1) i(2) by (simp add: record_fields_def)
  moreover have f: "record_fields fmt df' i ! j = ''nan''"
    using j4 c4(2) by (simp add: record_fields_def)
  moreover have "quote_minimal ''nan'' = ''nan''"
    by (simp add: quote_minimal_def)
  ultimately show ?thesis using c4 by simp
qed

theorem missing_categorical_is_nan_witness:
  "assign_types (\<lambda>s. ()) (\<lambda>x. ''0.0'') categorical_fts integer_fts numeric_fts text_fts
     [(''y_target'', [Str ''Success'']), (''Dbtr_PstlAdr_Ctry'', [Str ''MX'']),
      (''Cdtr_PstlAdr_Ctry'', [Str ''GB'']), (''RgltryRptg_DbtCdtRptgInd'', [NaN]),
      (''RgltryRptg_Authrty_Ctry'', [NaN]), (''RgltryRptg_Dtls_Cd'', [NaN]),
      (''InstrForNxtAgt'', [NaN])]
   = Inr [(''y_target'', [Str ''Success'']), (''Dbtr_PstlAdr_Ctry'', [Str ''MX'']),
      (''Cdtr_PstlAdr_Ctry'', [Str ''GB'']), (''RgltryRptg_DbtCdtRptgInd'', [Str ''nan'']),
      (''RgltryRptg_Authrty_Ctry'', [Str ''nan'']), (''RgltryRptg_Dtls_Cd'', [Str ''nan'']),
      (''InstrForNxtAgt'', [NaN])]
   \<and> record_fields (\<lambda>x. ''0.0'')
       [(''y_target'', [Str ''Success'']), (''Dbtr_PstlAdr_Ctry'', [Str ''MX'']),
        (''Cdtr_PstlAdr_Ctry'', [Str ''GB'']), (''RgltryRptg_DbtCdtRptgInd'', [Str ''nan'']),
        (''RgltryRptg_Authrty_Ctry'', [Str ''nan'']), (''RgltryRptg_Dtls_Cd'', [Str ''nan'']),
        (''InstrForNxtAgt'', [NaN :: unit cell])] 0 ! 3 = ''nan''
   \<and> to_csv (\<lambda>x. ''0.0'') False
       [(''y_target'', [Str ''Success'']), (''Dbtr_PstlAdr_Ctry'', [Str ''MX'']),
        (''Cdtr_PstlAdr_Ctry'', [Str ''GB'']), (''RgltryRptg_DbtCdtRptgInd'', [Str ''nan'']),
        (''RgltryRptg_Authrty_Ctry'', [Str ''nan'']), (''RgltryRptg_Dtls_Cd'', [Str ''nan'']),
        (''InstrForNxtAgt'', [NaN :: unit cell])]
     = ''Success,MX,GB,nan,nan,nan,'' @ [CHR 0x0A]"
proof -
  let ?df = "[(''y_target'', [Str ''Success'']), (''Dbtr_PstlAdr_Ctry'', [Str ''MX'']),
      (''Cdtr_PstlAdr_Ctry'', [Str ''GB'']), (''RgltryRptg_DbtCdtRptgInd'', [NaN]),
      (''RgltryRptg_Authrty_Ctry'', [NaN]), (''RgltryRptg_Dtls_Cd'', [NaN]),
      (''InstrForNxtAgt'', [NaN :: unit cell])]"
  let ?df' = "[(''y_target'', [Str ''Success'']), (''Dbtr_PstlAdr_Ctry'', [Str ''MX'']),
      (''Cdtr_PstlAdr_Ctry'', [Str ''GB'']), (''RgltryRptg_DbtCdtRptgInd'', [Str ''nan'']),
      (''RgltryRptg_Authrty_Ctry'', [Str ''nan'']), (''RgltryRptg_Dtls_Cd'', [Str ''nan'']),
      (''InstrForNxtAgt'', [NaN :: unit cell])]"
  have ok: "assign_types (\<lambda>s. ()) (\<lambda>x. ''0.0'') categorical_fts integer_fts numeric_fts text_fts
              ?df = Inr ?df'"
    by code_simp
  have col: "''RgltryRptg_DbtCdtRptgInd'' \<in> set categorical_fts"
    "''RgltryRptg_DbtCdtRptgInd'' \<notin> set integer_fts"
    "''RgltryRptg_DbtCdtRptgInd'' \<notin> set numeric_fts"
    by (simp_all add: categorical_fts_def integer_fts_def numeric_fts_def)
  have pos: "3 < length ?df" "fst (?df ! 3) = ''RgltryRptg_DbtCdtRptgInd''"
    "0 < length (snd (?df ! 3))" "snd (?df ! 3) ! 0 = NaN"
    by simp_all
  have csv: "to_csv (\<lambda>x. ''0.0'') False ?df' = ''Success,MX,GB,nan,nan,nan,'' @ [CHR 0x0A]"
    by code_simp
  from missing_categorical_is_nan [OF ok col pos, of "\<lambda>x. ''0.0''"] ok csv
  show ?thesis by simp
qed

subsection \<open>The declared kind decides\<close>



subsection \<open>Renaming columns\<close>

text \<open>
  Claim C3, as the specification states it, fails on the code: a dictionary with a key
  that is no label of the frame is accepted and changes nothing, and a dictionary that
  maps one label onto another existing label is accepted and yields the label twice.
  Neither call fails with \<open>SchemaMismatch\<close>.
\<close>

theorem rename_accepts_absent_key_and_collision:
  "map_of [(''c'', ''d'')] ''c'' = Some ''d''
   \<and> ''c'' \<notin> set (map fst [(''a'', [Str ''x'']), (''b'', [NaN :: unit cell])])
   \<and> rename (map_of [(''c'', ''d'')]) [(''a'', [Str ''x'']), (''b'', [NaN :: unit cell])]
       = Inr [(''a'', [Str ''x'']), (''b'', [NaN])]
   \<and> rename (map_of [(''c'', ''d'')]) [(''a'', [Str ''x'']), (''b'', [NaN :: unit cell])]
       \<noteq> Inl SchemaMismatch
   \<and> rename (map_of [(''a'', ''b'')]) [(''a'', [Str ''x'']), (''b'', [NaN :: unit cell])]
       = Inr [(''b'', [Str ''x'']), (''b'', [NaN])]
   \<and> \<not> distinct (map fst [(''b'', [Str ''x'']), (''b'', [NaN :: unit cell])])
   \<and> rename (map_of [(''a'', ''b'')]) [(''a'', [Str ''x'']), (''b'', [NaN :: unit cell])]
       \<noteq> Inl SchemaMismatch"
  by (simp add: rename_def rename_label_def)

text \<open>
  Claim C3, amended. \<open>rename\<close> never fails. It returns a frame with the same columns in
  the same order and with the same cells; each label is replaced by its image when it is
  a key of the dictionary and is kept otherwise, so a key that is no label has no effect
  and duplicate labels are not detected. For the dictionary and the features of the
  notebook the new labels are the seven short names.
\<close>

theorem rename_never_fails:
  "(\<exists>df'. rename columns df = Inr df'
          \<and> map fst df' = map (rename_label columns) (map fst df)
          \<and> map snd df' = map snd df)
   \<and> map (rename_label rename_columns) fts =
       [''y_target'', ''Dbtr_PstlAdr_Ctry'', ''Cdtr_PstlAdr_Ctry'', ''RgltryRptg_DbtCdtRptgInd'',
        ''RgltryRptg_Authrty_Ctry'', ''RgltryRptg_Dtls_Cd'', ''InstrForNxtAgt'']"
proof
  show "\<exists>df'. rename columns df = Inr df'
          \<and> map fst df' = map (rename_label columns) (map fst df)
          \<and> map snd df' = map snd df"
    by (simp add: rename_def case_prod_unfold comp_def)
  show "map (rename_label rename_columns) fts =
       [''y_target'', ''Dbtr_PstlAdr_Ctry'', ''Cdtr_PstlAdr_Ctry'', ''RgltryRptg_DbtCdtRptgInd'',
        ''RgltryRptg_Authrty_Ctry'', ''RgltryRptg_Dtls_Cd'', ''InstrForNxtAgt'']"
    by (simp add: rename_label_def rename_columns_def fts_def)
qed

subsection \<open>Encoding the target\<close>

lemma classes_props:
  fixes y :: "'a::linorder list"
  shows "sorted (classes y)" "distinct (classes y)" "set (classes y) = set y"
  by (simp_all add: classes_def)

lemma classes_unique:
  fixes y :: "'a::linorder list"
  assumes "sorted_wrt (<) cs" and "set cs = set y"
  shows "classes y = cs"
  using assms classes_props [of y]
  by (intro sorted_distinct_set_unique) (simp_all add: strict_sorted_iff)

lemma class_index_nth:
  assumes "v \<in> set cs"
  shows "class_index cs v < length cs \<and> cs ! class_index cs v = v"
proof -
  have l: "class_index cs v < length cs"
    using assms unfolding class_index_def by (induction cs) auto
  then have "\<not> (cs ! class_index cs v \<noteq> v)"
    unfolding class_index_def by (rule nth_length_takeWhile)
  with l show ?thesis by simp
qed

lemma strict_sorted_nth_less_iff:
  fixes cs :: "'a::linorder list"
  assumes "sorted_wrt (<) cs" and "i < length cs" and "j < length cs"
  shows "cs ! i < cs ! j \<longleftrightarrow> i < j"
proof
  assume "i < j"
  with assms show "cs ! i < cs ! j" by (simp add: sorted_wrt_nth_less)
next
  assume l: "cs ! i < cs ! j"
  show "i < j"
  proof (rule ccontr)
    assume "\<not> i < j"
    then consider "i = j" | "j < i" by linarith
    then show False
    proof cases
      case 1
      with l show False by simp
    next
      case 2
      with assms have "cs ! j < cs ! i" by (simp add: sorted_wrt_nth_less)
      with l show False by simp
    qed
  qed
qed

text \<open>
  Claim C2. For every list of target texts, the classes are the distinct observed texts
  in strictly ascending lexicographic order; the label map pairs them, in that order,
  with the codes 0 to k - 1, where k is the number of distinct texts; every encoded value
  decodes to the text it replaced; the code of a text is below the code of another
  exactly when the text is below the other; the map depends on the set of observed
  texts only, not on their order or multiplicity; and when the observed texts are exactly
  Failure and Success the map is Failure to 0, Success to 1.
\<close>

theorem label_map_dense_sorted:
  fixes y z :: "string list"
  shows "sorted_wrt (<) (classes y) \<and> set (classes y) = set y
       \<and> map fst (label_map y) = classes y
       \<and> map snd (label_map y) = [0..<card (set y)]
       \<and> map (\<lambda>k. classes y ! k) (fit_transform y) = y
       \<and> (\<forall>u \<in> set y. \<forall>v \<in> set y.
            class_index (classes y) u < card (set y)
            \<and> (class_index (classes y) u < class_index (classes y) v \<longleftrightarrow> u < v))
       \<and> (set y = set z \<longrightarrow> label_map y = label_map z)
       \<and> (set y = {''Failure'', ''Success''}
            \<longrightarrow> label_map y = [(''Failure'', 0), (''Success'', 1)])"
proof (intro conjI ballI impI)
  show s: "sorted_wrt (<) (classes y)"
    using classes_props [of y] by (simp add: strict_sorted_iff)
  show "set (classes y) = set y" by (rule classes_props)
  have len: "length (classes y) = card (set y)"
    using classes_props [of y] by (metis distinct_card)
  show "map fst (label_map y) = classes y" by (simp add: label_map_def)
  show "map snd (label_map y) = [0..<card (set y)]" by (simp add: label_map_def len)
  show "map (\<lambda>k. classes y ! k) (fit_transform y) = y"
    unfolding fit_transform_def map_map comp_def
    by (rule map_idI) (simp add: class_index_nth classes_props)
  {
    fix u v assume u: "u \<in> set y" and v: "v \<in> set y"
    from u have iu: "class_index (classes y) u < length (classes y)"
      "classes y ! class_index (classes y) u = u"
      by (simp_all add: class_index_nth classes_props)
    from v have iv: "class_index (classes y) v < length (classes y)"
      "classes y ! class_index (classes y) v = v"
      by (simp_all add: class_index_nth classes_props)
    show "class_index (classes y) u < card (set y)" using iu(1) len by simp
    show "class_index (classes y) u < class_index (classes y) v \<longleftrightarrow> u < v"
      using strict_sorted_nth_less_iff [OF s iu(1) iv(1)] iu(2) iv(2) by simp
  }
  {
    assume "set y = set z"
    then have "classes y = classes z"
      using classes_props [of z] by (intro classes_unique) (simp_all add: strict_sorted_iff)
    then show "label_map y = label_map z" by (simp add: label_map_def)
  }
  {
    assume "set y = {''Failure'', ''Success''}"
    then have "classes y = [''Failure'', ''Success'']"
      by (intro classes_unique) auto
    then show "label_map y = [(''Failure'', 0), (''Success'', 1)]"
      by (simp add: label_map_def)
  }
qed

theorem label_map_dense_sorted_witness:
  "classes [''Success'', ''Failure'', ''Success'', ''Success'', ''Failure'']
     = [''Failure'', ''Success'']
   \<and> label_map [''Success'', ''Failure'', ''Success'', ''Success'', ''Failure'']
     = [(''Failure'', 0), (''Success'', 1)]
   \<and> label_map [''Failure'', ''Success'']
     = label_map [''Success'', ''Failure'', ''Success'', ''Success'', ''Failure'']
   \<and> fit_transform [''Success'', ''Failure'', ''Success'', ''Success'', ''Failure'']
     = [1, 0, 1, 1, 0]
   \<and> class_index (classes [''Success'', ''Failure'', ''Success'', ''Success'', ''Failure''])
        ''Failure''
     < class_index (classes [''Success'', ''Failure'', ''Success'', ''Success'', ''Failure''])
        ''Success''"
proof -
  let ?y = "[''Success'', ''Failure'', ''Success'', ''Success'', ''Failure'']"
  have s: "set ?y = {''Failure'', ''Success''}" by (simp add: insert_commute)
  have t: "set [''Failure'', ''Success''] = set ?y" by (simp add: insert_commute)
  have m: "''Failure'' \<in> set ?y" "''Success'' \<in> set ?y" by simp_all
  have lt: "''Failure'' < ''Success''" by simp
  note T = label_map_dense_sorted [of ?y "[''Failure'', ''Success'']"]
  have lm: "label_map ?y = [(''Failure'', 0), (''Success'', 1)]"
    using T [THEN conjunct2, THEN conjunct2, THEN conjunct2, THEN conjunct2, THEN conjunct2,
             THEN conjunct2, THEN conjunct2] s by (rule mp)
  have eq: "label_map [''Failure'', ''Success''] = label_map ?y"
    using label_map_dense_sorted [of "[''Failure'', ''Success'']" ?y,
             THEN conjunct2, THEN conjunct2, THEN conjunct2, THEN conjunct2, THEN conjunct2,
             THEN conjunct2, THEN conjunct1] t by (rule mp)
  have "map fst (label_map ?y) = classes ?y"
    using T [THEN conjunct2, THEN conjunct2, THEN conjunct1] .
  then have cl: "classes ?y = [''Failure'', ''Success'']"
    by (simp only: lm list.map fst_conv)
  have ft: "fit_transform ?y = [1, 0, 1, 1, 0]"
    by (simp add: fit_transform_def cl class_index_def)
  have "\<forall>u \<in> set ?y. \<forall>v \<in> set ?y.
            class_index (classes ?y) u < card (set ?y)
            \<and> (class_index (classes ?y) u < class_index (classes ?y) v \<longleftrightarrow> u < v)"
    using T [THEN conjunct2, THEN conjunct2, THEN conjunct2, THEN conjunct2, THEN conjunct2,
             THEN conjunct1] .
  then have "class_index (classes ?y) ''Failure'' < class_index (classes ?y) ''Success''
       \<longleftrightarrow> ''Failure'' < ''Success''"
    using m by blast
  then have "class_index (classes ?y) ''Failure'' < class_index (classes ?y) ''Success''"
    using lt by (rule iffD2)
  with cl lm eq ft show ?thesis by (simp only: simp_thms)
qed

subsection \<open>Splitting\<close>







end
